theory Spec2Isabelle
  imports Main
begin

section \<open>Values\<close>

text \<open>
  The payload that \<open>hydrate\<close> receives is parsed JSON (the parameter is called
  \<open>json\<close> in the source): null, booleans, numbers, strings, arrays and objects. An
  object is the list of its own properties in the order \<open>Object.keys\<close> lists them.
  Numbers are only ever passed through by the code, never computed with; the model
  carries integers. A parsed object inherits from \<open>Object.prototype\<close>, which has no
  \<open>_path\<close>, \<open>_args\<close> or \<open>_class\<close>, so these three are read as own properties.
\<close>

datatype json =
    JNull
  | JBool bool
  | JNum int
  | JStr string
  | JArr "json list"
  | JObj "(string \<times> json) list"

text \<open>
  Live values: what the context holds and what hydration returns. A function is
  a reference \<open>VFun f\<close> to a function object, so two values denote the same function
  object exactly when their identifiers agree. An object carries the prototype it
  inherits from and its own properties, which are data properties: reading one runs
  no code.
\<close>

type_synonym fid = nat

datatype proto =
    ProtoNull
  | ProtoObject
  | ProtoFunction
  | ProtoArray
  | ProtoString
  | ProtoNumber
  | ProtoBoolean
  | ProtoClass fid
  | ProtoCtor fid

datatype jsval =
    VUndefined
  | VNull
  | VBool bool
  | VNum int
  | VStr string
  | VArr "jsval list"
  | VObj proto "(string \<times> jsval) list"
  | VFun fid

text \<open>
  What can be thrown: an \<open>Error\<close> built by this code with its message, a
  \<open>TypeError\<close> of the engine (its text is the engine's own and is not modelled), or
  any value a capability throws.
\<close>

datatype error =
    Error string
  | TypeError
  | Thrown jsval

section \<open>The realm\<close>

text \<open>
  Everything the code uses and does not define: \<open>isClass\<close> of the imported
  utility library, what calling and constructing a function object does (with a world
  state \<open>'w\<close> for the effects of capabilities), the own properties and the prototype
  of a function object, what a prototype chain yields for a key, and the engine's
  conversion of a non-string JSON value to a string. The context and the payload are
  values: what a capability does is seen in its outcome and in the world, and it does
  not change the context or the payload under the hands of a running hydration.
\<close>

record 'w realm =
  isClass :: "fid \<Rightarrow> bool"
  call_fn :: "fid \<Rightarrow> jsval list \<Rightarrow> 'w \<Rightarrow> (error + jsval) \<times> 'w"
  construct_fn :: "fid \<Rightarrow> jsval list \<Rightarrow> 'w \<Rightarrow> (error + jsval) \<times> 'w"
  fun_own :: "fid \<Rightarrow> (string \<times> jsval) list"
  fun_proto :: "fid \<Rightarrow> proto"
  inherited :: "proto \<Rightarrow> string \<Rightarrow> jsval"
  toString :: "json \<Rightarrow> string"

section \<open>Property access\<close>

definition lookup_proto :: "'w realm \<Rightarrow> proto \<Rightarrow> string \<Rightarrow> jsval" where
  "lookup_proto R p k = (if p = ProtoNull then VUndefined else inherited R p k)"

definition is_digit :: "char \<Rightarrow> bool" where
  "is_digit c = (c \<in> set ''0123456789'')"

definition digit_value :: "char \<Rightarrow> nat" where
  "digit_value c = of_char c - 48"

text \<open>A canonical array index: a decimal numeral without a leading zero.\<close>

definition parse_index :: "string \<Rightarrow> nat option" where
  "parse_index s =
     (if s \<noteq> [] \<and> list_all is_digit s \<and> (length s = 1 \<or> hd s \<noteq> CHR ''0'')
      then Some (foldl (\<lambda>a c. 10 * a + digit_value c) 0 s)
      else None)"

text \<open>
  \<open>get_prop R v k\<close> is \<^verbatim>\<open>v?.[k]\<close>: undefined on undefined and null, otherwise the own
  property when there is one, and else what the prototype chain gives.
\<close>

fun get_prop :: "'w realm \<Rightarrow> jsval \<Rightarrow> string \<Rightarrow> jsval" where
  "get_prop R VUndefined k = VUndefined"
| "get_prop R VNull k = VUndefined"
| "get_prop R (VBool b) k = lookup_proto R ProtoBoolean k"
| "get_prop R (VNum n) k = lookup_proto R ProtoNumber k"
| "get_prop R (VStr s) k =
     (if k = ''length'' then VNum (int (length s))
      else (case parse_index k of
              Some i \<Rightarrow> if i < length s then VStr [s ! i] else lookup_proto R ProtoString k
            | None \<Rightarrow> lookup_proto R ProtoString k))"
| "get_prop R (VArr xs) k =
     (if k = ''length'' then VNum (int (length xs))
      else (case parse_index k of
              Some i \<Rightarrow> if i < length xs then xs ! i else lookup_proto R ProtoArray k
            | None \<Rightarrow> lookup_proto R ProtoArray k))"
| "get_prop R (VObj p ps) k =
     (case map_of ps k of Some v \<Rightarrow> v | None \<Rightarrow> lookup_proto R p k)"
| "get_prop R (VFun f) k =
     (case map_of (fun_own R f) k of Some v \<Rightarrow> v | None \<Rightarrow> lookup_proto R (fun_proto R f) k)"

fun truthy :: "jsval \<Rightarrow> bool" where
  "truthy VUndefined = False"
| "truthy VNull = False"
| "truthy (VBool b) = b"
| "truthy (VNum n) = (n \<noteq> 0)"
| "truthy (VStr s) = (s \<noteq> [])"
| "truthy (VArr xs) = True"
| "truthy (VObj p ps) = True"
| "truthy (VFun f) = True"

fun truthy_json :: "json \<Rightarrow> bool" where
  "truthy_json JNull = False"
| "truthy_json (JBool b) = b"
| "truthy_json (JNum n) = (n \<noteq> 0)"
| "truthy_json (JStr s) = (s \<noteq> [])"
| "truthy_json (JArr xs) = True"
| "truthy_json (JObj ps) = True"

text \<open>A field of a parsed object that is absent reads as undefined, which is falsy.\<close>

fun truthy_field :: "json option \<Rightarrow> bool" where
  "truthy_field None = False"
| "truthy_field (Some j) = truthy_json j"

text \<open>\<^verbatim>\<open>typeof v === "function"\<close> and \<^verbatim>\<open>typeof v === "object"\<close>.\<close>

fun is_function :: "jsval \<Rightarrow> bool" where
  "is_function (VFun f) = True"
| "is_function v = False"

fun typeof_object :: "jsval \<Rightarrow> bool" where
  "typeof_object VNull = True"
| "typeof_object (VArr xs) = True"
| "typeof_object (VObj p ps) = True"
| "typeof_object v = False"

section \<open>Paths\<close>

text \<open>\<^verbatim>\<open>path.join(".")\<close> on an array of strings.\<close>

fun join_dot :: "string list \<Rightarrow> string" where
  "join_dot [] = []"
| "join_dot [x] = x"
| "join_dot (x # y # ys) = x @ ''.'' @ join_dot (y # ys)"

text \<open>
  A descriptor's \<open>_path\<close> is whatever the payload holds. A key that is not a string is
  converted by the engine when it is used as a property key; \<open>join\<close> renders null as
  the empty string and converts the rest the same way.
\<close>

fun to_key :: "'w realm \<Rightarrow> json \<Rightarrow> string" where
  "to_key R (JStr s) = s"
| "to_key R j = toString R j"

fun join_elem :: "'w realm \<Rightarrow> json \<Rightarrow> string" where
  "join_elem R (JStr s) = s"
| "join_elem R JNull = []"
| "join_elem R j = toString R j"

text \<open>
  \<^verbatim>\<open>_path.join(".")\<close>: only an array has \<open>join\<close>; on a string (the other iterable
  JSON value) the call is a TypeError.
\<close>

fun join_path :: "'w realm \<Rightarrow> json \<Rightarrow> error + string" where
  "join_path R (JArr xs) = Inr (join_dot (map (join_elem R) xs))"
| "join_path R j = Inl TypeError"

text \<open>\<^verbatim>\<open>for (const key of _path)\<close>: arrays and strings are iterable, nothing else is.\<close>

fun iterate :: "json \<Rightarrow> error + json list" where
  "iterate (JArr xs) = Inr xs"
| "iterate (JStr s) = Inr (map (\<lambda>c. JStr [c]) s)"
| "iterate j = Inl TypeError"

text \<open>
  The loop of \<open>executeDehydrated\<close>:
  \<^verbatim>\<open>for (const key of _path) { pathContext = pathContext?.[key] }\<close>
\<close>

fun walk :: "'w realm \<Rightarrow> jsval \<Rightarrow> json list \<Rightarrow> jsval" where
  "walk R pathContext [] = pathContext"
| "walk R pathContext (key # keys) = walk R (get_prop R pathContext (to_key R key)) keys"

text \<open>
  \<^verbatim>\<open>...args\<close>: spreading the hydrated arguments. Arrays and strings are iterable;
  the objects of this model carry string-keyed data properties only, so none is.
\<close>

fun spread :: "jsval \<Rightarrow> error + jsval list" where
  "spread (VArr xs) = Inr xs"
| "spread (VStr s) = Inr (map (\<lambda>c. VStr [c]) s)"
| "spread v = Inl TypeError"

section \<open>Hydration\<close>

text \<open>\<^verbatim>\<open>result[key] = value\<close> on the own properties of \<open>result\<close>.\<close>

fun set_own :: "(string \<times> 'a) list \<Rightarrow> string \<Rightarrow> 'a \<Rightarrow> (string \<times> 'a) list" where
  "set_own [] k v = [(k, v)]"
| "set_own ((k', v') # ps) k v = (if k' = k then (k, v) # ps else (k', v') # set_own ps k v)"

text \<open>
  Lines 75 to 81 of the source, after the arguments were hydrated: construction when
  \<open>_class\<close> is truthy and the target is a class, the error when it is not a class,
  a plain call otherwise.
\<close>

definition invoke ::
  "'w realm \<Rightarrow> fid \<Rightarrow> json \<Rightarrow> json option \<Rightarrow> jsval \<Rightarrow> 'w \<Rightarrow> (error + jsval) \<times> 'w" where
  "invoke R f path cls args w =
     (if truthy_field cls then
        (if isClass R f then
           (case spread args of
              Inl e \<Rightarrow> (Inl e, w)
            | Inr as \<Rightarrow> construct_fn R f as w)
         else
           (case join_path R path of
              Inl e \<Rightarrow> (Inl e, w)
            | Inr s \<Rightarrow> (Inl (Error (''context does not have a class at path: '' @ s)), w)))
      else
        (case spread args of
           Inl e \<Rightarrow> (Inl e, w)
         | Inr as \<Rightarrow> call_fn R f as w))"

text \<open>Line 85 of the source.\<close>

definition no_function :: "'w realm \<Rightarrow> json \<Rightarrow> 'w \<Rightarrow> (error + jsval) \<times> 'w" where
  "no_function R path w =
     (case join_path R path of
        Inl e \<Rightarrow> (Inl e, w)
      | Inr s \<Rightarrow> (Inl (Error (''context does not have a function at path: '' @ s)), w))"

text \<open>
  \<open>hydrate\<close> and \<open>executeDehydrated\<close> call each other. The two loops of \<open>hydrate\<close>
  are \<open>hydrate_elements\<close>, which pushes the hydrated elements of an array onto
  \<open>results\<close>, and \<open>hydrate_keys\<close>, which goes through \<open>Object.keys(json)\<close> and
  assigns the hydrated \<open>json[key]\<close> to \<open>result[key]\<close>, \<open>result\<close> being made by
  \<open>Object.create(null)\<close>. Every outcome is paired with the world it leaves, and an
  error ends the evaluation where it is raised. The recursion ends because a property
  of an object is smaller than the object.
\<close>

lemma size_map_of:
  "map_of ps k = Some v \<Longrightarrow> size v < Suc (size_list (size_prod (\<lambda>_. 0) size) ps)"
  for ps :: "(string \<times> json) list"
  by (induction ps) (auto split: if_splits)

function (sequential)
  hydrate :: "'w realm \<Rightarrow> json \<Rightarrow> jsval \<Rightarrow> 'w \<Rightarrow> (error + jsval) \<times> 'w"
  and hydrate_elements ::
    "'w realm \<Rightarrow> json list \<Rightarrow> jsval \<Rightarrow> jsval list \<Rightarrow> 'w \<Rightarrow> (error + jsval list) \<times> 'w"
  and hydrate_keys ::
    "'w realm \<Rightarrow> (string \<times> json) list \<Rightarrow> string list \<Rightarrow> jsval \<Rightarrow> (string \<times> jsval) list \<Rightarrow> 'w
      \<Rightarrow> (error + (string \<times> jsval) list) \<times> 'w"
  and executeDehydrated :: "'w realm \<Rightarrow> jsval \<Rightarrow> json \<Rightarrow> 'w \<Rightarrow> (error + jsval) \<times> 'w"
where
  "hydrate R (JArr xs) context w =
     (case hydrate_elements R xs context [] w of
        (Inl e, w') \<Rightarrow> (Inl e, w')
      | (Inr results, w') \<Rightarrow> (Inr (VArr results), w'))"
| "hydrate R (JObj ps) context w =
     (if truthy_field (map_of ps ''_path'') then executeDehydrated R context (JObj ps) w
      else
        (case hydrate_keys R ps (map fst ps) context [] w of
           (Inl e, w') \<Rightarrow> (Inl e, w')
         | (Inr result, w') \<Rightarrow> (Inr (VObj ProtoNull result), w')))"
| "hydrate R JNull context w = (Inr VNull, w)"
| "hydrate R (JBool b) context w = (Inr (VBool b), w)"
| "hydrate R (JNum n) context w = (Inr (VNum n), w)"
| "hydrate R (JStr s) context w = (Inr (VStr s), w)"
| "hydrate_elements R [] context results w = (Inr results, w)"
| "hydrate_elements R (element # rest) context results w =
     (case hydrate R element context w of
        (Inl e, w') \<Rightarrow> (Inl e, w')
      | (Inr r, w') \<Rightarrow> hydrate_elements R rest context (results @ [r]) w')"
| "hydrate_keys R ps [] context result w = (Inr result, w)"
| "hydrate_keys R ps (key # keys) context result w =
     (case map_of ps key of
        None \<Rightarrow> hydrate_keys R ps keys context (set_own result key VUndefined) w
      | Some v \<Rightarrow>
          (case hydrate R v context w of
             (Inl e, w') \<Rightarrow> (Inl e, w')
           | (Inr r, w') \<Rightarrow> hydrate_keys R ps keys context (set_own result key r) w'))"
| "executeDehydrated R context (JObj ps) w =
     (case map_of ps ''_path'' of
        None \<Rightarrow> (Inl TypeError, w)
      | Some path \<Rightarrow>
          (case iterate path of
             Inl e \<Rightarrow> (Inl e, w)
           | Inr keys \<Rightarrow>
               (case walk R context keys of
                  VFun f \<Rightarrow>
                    (case map_of ps ''_args'' of
                       None \<Rightarrow> (Inr (VFun f), w)
                     | Some a \<Rightarrow>
                         if truthy_json a then
                           (case hydrate R a context w of
                              (Inl e, w') \<Rightarrow> (Inl e, w')
                            | (Inr args, w') \<Rightarrow> invoke R f path (map_of ps ''_class'') args w')
                         else (Inr (VFun f), w))
                | _ \<Rightarrow> no_function R path w)))"
| "executeDehydrated R context d w = (Inl TypeError, w)"
  by pat_completeness auto

termination
  by (relation "inv_image (less_than <*lex*> less_than)
        (\<lambda>x. case x of
           Inl (Inl (R, j, c, w)) \<Rightarrow> (2 * size j + 1, 0)
         | Inl (Inr (R, xs, c, acc, w)) \<Rightarrow> (2 * size_list size xs + 1, 0)
         | Inr (Inl (R, ps, ks, c, acc, w)) \<Rightarrow> (2 * size (JObj ps), length ks)
         | Inr (Inr (R, c, d, w)) \<Rightarrow> (2 * size d, 0))")
     (auto dest: size_map_of)

section \<open>The call capturer\<close>

text \<open>
  \<open>createCallCapturer\<close> wraps a context in a \<open>Proxy\<close>; a \<open>Proxy\<close> can only be made
  of an object or a function. What the proxy's \<open>get\<close> returns is either another
  capturer (the nested context with the longer path) or a capture function, which
  remembers its path and whether \<open>isClass\<close> held of the function it stands for.
\<close>

datatype capture =
    Capturer jsval "string list"
  | CaptureFn "string list" bool

definition createCallCapturer :: "jsval \<Rightarrow> string list \<Rightarrow> error + capture" where
  "createCallCapturer context path =
     (if is_function context \<or> (typeof_object context \<and> context \<noteq> VNull)
      then Inr (Capturer context path)
      else Inl TypeError)"

text \<open>The \<open>get\<close> handler, lines 17 to 49 of the source.\<close>

definition proxy_get :: "'w realm \<Rightarrow> jsval \<Rightarrow> string list \<Rightarrow> string \<Rightarrow> error + capture" where
  "proxy_get R target path key =
     (let val = get_prop R target key in
      case val of
        VFun f \<Rightarrow> Inr (CaptureFn (path @ [key]) (isClass R f))
      | _ \<Rightarrow>
          if truthy val \<and> typeof_object val then createCallCapturer val (path @ [key])
          else Inl (Error (''context does not have function for path: '' @ join_dot (path @ [key]))))"

text \<open>
  \<open>dehydrate\<close> hands the capturer of the context to the callback and returns what
  the callback returns.
\<close>

definition dehydrate :: "jsval \<Rightarrow> (capture \<Rightarrow> error + 'a) \<Rightarrow> error + 'a" where
  "dehydrate context callback =
     (case createCallCapturer context [] of
        Inl e \<Rightarrow> Inl e
      | Inr capturer \<Rightarrow> callback capturer)"

definition new_required_message :: string where
  "new_required_message =
     ''captured class instantiations should also use '' @ [CHR 0x27] @ ''new'' @ [CHR 0x27]"

text \<open>
  The capture function called without \<open>new\<close>, called with \<open>new\<close>, and serialised
  (\<open>toJSON\<close>). The capture function of a plain function is an arrow function, which
  cannot be constructed.
\<close>

definition capturer_call :: "string list \<Rightarrow> bool \<Rightarrow> json list \<Rightarrow> error + json" where
  "capturer_call path cls args =
     (if cls then Inl (Error new_required_message)
      else Inr (JObj [(''_path'', JArr (map JStr path)), (''_args'', JArr args)]))"

definition capturer_new :: "string list \<Rightarrow> bool \<Rightarrow> json list \<Rightarrow> error + json" where
  "capturer_new path cls args =
     (if cls then
        Inr (JObj [(''_path'', JArr (map JStr path)), (''_class'', JBool True), (''_args'', JArr args)])
      else Inl TypeError)"

definition capturer_toJSON :: "string list \<Rightarrow> json" where
  "capturer_toJSON path = JObj [(''_path'', JArr (map JStr path))]"

section \<open>Notions the properties are stated with\<close>

text \<open>A message mentions a text when the text occurs in it.\<close>

fun mentions :: "string \<Rightarrow> string \<Rightarrow> bool" where
  "mentions [] t = (t = [])"
| "mentions (c # cs) t = (take (length t) (c # cs) = t \<or> mentions cs t)"

text \<open>
  A payload is free of descriptors when hydration takes none of its objects for one,
  which is the case in particular when no object has a \<open>_path\<close> field at all.
\<close>

fun descriptor_free :: "json \<Rightarrow> bool"
  and descriptor_free_list :: "json list \<Rightarrow> bool"
  and descriptor_free_props :: "(string \<times> json) list \<Rightarrow> bool"
where
  "descriptor_free (JArr xs) = descriptor_free_list xs"
| "descriptor_free (JObj ps) = (\<not> truthy_field (map_of ps ''_path'') \<and> descriptor_free_props ps)"
| "descriptor_free j = True"
| "descriptor_free_list [] = True"
| "descriptor_free_list (x # xs) = (descriptor_free x \<and> descriptor_free_list xs)"
| "descriptor_free_props [] = True"
| "descriptor_free_props ((k, v) # ps) = (descriptor_free v \<and> descriptor_free_props ps)"

text \<open>An object has each of its keys once.\<close>

fun wf_json :: "json \<Rightarrow> bool"
  and wf_json_list :: "json list \<Rightarrow> bool"
  and wf_json_props :: "(string \<times> json) list \<Rightarrow> bool"
where
  "wf_json (JArr xs) = wf_json_list xs"
| "wf_json (JObj ps) = (distinct (map fst ps) \<and> wf_json_props ps)"
| "wf_json j = True"
| "wf_json_list [] = True"
| "wf_json_list (x # xs) = (wf_json x \<and> wf_json_list xs)"
| "wf_json_props [] = True"
| "wf_json_props ((k, v) # ps) = (wf_json v \<and> wf_json_props ps)"

text \<open>
  Structural equality of a live value and a payload: the same primitive, arrays of the
  same length with structurally equal elements at each position, objects with the same
  keys and structurally equal values. The prototype of an object is not looked at.
\<close>

fun struct_eq :: "jsval \<Rightarrow> json \<Rightarrow> bool"
  and struct_eq_list :: "jsval list \<Rightarrow> json list \<Rightarrow> bool"
  and struct_eq_props :: "(string \<times> jsval) list \<Rightarrow> (string \<times> json) list \<Rightarrow> bool"
where
  "struct_eq VNull JNull = True"
| "struct_eq (VBool a) (JBool b) = (a = b)"
| "struct_eq (VNum a) (JNum b) = (a = b)"
| "struct_eq (VStr a) (JStr b) = (a = b)"
| "struct_eq (VArr vs) (JArr js) = struct_eq_list vs js"
| "struct_eq (VObj p vps) (JObj jps) = struct_eq_props vps jps"
| "struct_eq v j = False"
| "struct_eq_list [] [] = True"
| "struct_eq_list (v # vs) (j # js) = (struct_eq v j \<and> struct_eq_list vs js)"
| "struct_eq_list vs js = False"
| "struct_eq_props [] [] = True"
| "struct_eq_props ((k, v) # vps) ((k', j) # jps) = (k = k' \<and> struct_eq v j \<and> struct_eq_props vps jps)"
| "struct_eq_props vps jps = False"

text \<open>
  Hydration as the specification describes it (its sections 4.3 and 4.4), as a
  relation of its own that does not mention the functions above:
  \<open>hydrates R T j w v w'\<close> says that the payload \<open>j\<close>, hydrated against the tree \<open>T\<close>
  in the world \<open>w\<close>, gives the live value \<open>v\<close> and leaves the world \<open>w'\<close>. A primitive
  gives itself. A sequence gives the sequence of its hydrated elements, taken in
  order, each in the world the one before it left. An object whose path is a sequence
  is a descriptor and gives what resolving it gives. An object without a path field
  gives a new object with the same keys, each with its hydrated value. Resolving
  walks the path to a function; without arguments it gives that function; with
  arguments it hydrates them and then calls the function with them, or constructs it
  when the descriptor carries the constructor flag and the function is a class. The
  relation holds of successful hydrations only.
\<close>

inductive hydrates :: "'w realm \<Rightarrow> jsval \<Rightarrow> json \<Rightarrow> 'w \<Rightarrow> jsval \<Rightarrow> 'w \<Rightarrow> bool"
  and hydrates_list :: "'w realm \<Rightarrow> jsval \<Rightarrow> json list \<Rightarrow> 'w \<Rightarrow> jsval list \<Rightarrow> 'w \<Rightarrow> bool"
  and hydrates_props ::
    "'w realm \<Rightarrow> jsval \<Rightarrow> (string \<times> json) list \<Rightarrow> 'w \<Rightarrow> (string \<times> jsval) list \<Rightarrow> 'w \<Rightarrow> bool"
  and resolves :: "'w realm \<Rightarrow> jsval \<Rightarrow> (string \<times> json) list \<Rightarrow> 'w \<Rightarrow> jsval \<Rightarrow> 'w \<Rightarrow> bool"
  for R :: "'w realm" and T :: jsval
where
  h_null: "hydrates R T JNull w VNull w"
| h_bool: "hydrates R T (JBool b) w (VBool b) w"
| h_num: "hydrates R T (JNum n) w (VNum n) w"
| h_str: "hydrates R T (JStr s) w (VStr s) w"
| h_sequence: "hydrates_list R T xs w vs w' \<Longrightarrow> hydrates R T (JArr xs) w (VArr vs) w'"
| h_descriptor:
    "map_of ps ''_path'' = Some (JArr ks) \<Longrightarrow> resolves R T ps w v w'
      \<Longrightarrow> hydrates R T (JObj ps) w v w'"
| h_object:
    "map_of ps ''_path'' = None \<Longrightarrow> distinct (map fst ps) \<Longrightarrow> hydrates_props R T ps w rs w'
      \<Longrightarrow> hydrates R T (JObj ps) w (VObj ProtoNull rs) w'"
| l_nil: "hydrates_list R T [] w [] w"
| l_cons:
    "hydrates R T x w v w1 \<Longrightarrow> hydrates_list R T xs w1 vs w2
      \<Longrightarrow> hydrates_list R T (x # xs) w (v # vs) w2"
| p_nil: "hydrates_props R T [] w [] w"
| p_cons:
    "hydrates R T j w v w1 \<Longrightarrow> hydrates_props R T ps w1 rs w2
      \<Longrightarrow> hydrates_props R T ((k, j) # ps) w ((k, v) # rs) w2"
| r_reference:
    "map_of ps ''_path'' = Some (JArr ks) \<Longrightarrow> walk R T ks = VFun f
      \<Longrightarrow> map_of ps ''_args'' = None
      \<Longrightarrow> resolves R T ps w (VFun f) w"
| r_call:
    "map_of ps ''_path'' = Some (JArr ks) \<Longrightarrow> walk R T ks = VFun f
      \<Longrightarrow> map_of ps ''_args'' = Some (JArr A)
      \<Longrightarrow> \<not> truthy_field (map_of ps ''_class'')
      \<Longrightarrow> hydrates_list R T A w vs w1
      \<Longrightarrow> call_fn R f vs w1 = (Inr v, w2)
      \<Longrightarrow> resolves R T ps w v w2"
| r_construct:
    "map_of ps ''_path'' = Some (JArr ks) \<Longrightarrow> walk R T ks = VFun f
      \<Longrightarrow> map_of ps ''_args'' = Some (JArr A)
      \<Longrightarrow> map_of ps ''_class'' = Some (JBool True)
      \<Longrightarrow> isClass R f
      \<Longrightarrow> hydrates_list R T A w vs w1
      \<Longrightarrow> construct_fn R f vs w1 = (Inr v, w2)
      \<Longrightarrow> resolves R T ps w v w2"

code_pred hydrates .

text \<open>A value is missing when it is undefined or null.\<close>

fun nullish :: "jsval \<Rightarrow> bool" where
  "nullish VUndefined = True"
| "nullish VNull = True"
| "nullish v = False"

section \<open>A context to run the code on\<close>

text \<open>
  The contexts of the repository's tests: \<open>sqrt\<close> and \<open>max\<close>, a class \<open>Box\<close> under
  a namespace, a plain function \<open>f\<close> that doubles its argument, and \<open>getV\<close>, which
  returns the property \<open>v\<close> of its argument. The world state
  is the log of the calls and constructions made so far. \<open>sqrt\<close> is given on the two
  squares the tests use. As in the language, calling a class without \<open>new\<close> and calling
  \<open>Function.prototype.call\<close> on no function are TypeErrors of the engine, and only the
  class can be constructed. Of the built-in prototypes the realm gives
  \<open>Function.prototype.call\<close>; no other inherited name is looked up below but
  \<open>Missing\<close>, \<open>missing\<close> and \<open>PI\<close>, which no built-in prototype defines.
\<close>

datatype event =
    Called fid "jsval list"
  | Constructed fid "jsval list"

abbreviation sqrt_fn :: fid where "sqrt_fn \<equiv> 0"
abbreviation max_fn :: fid where "max_fn \<equiv> 1"
abbreviation Box :: fid where "Box \<equiv> 2"
abbreviation double_fn :: fid where "double_fn \<equiv> 3"
abbreviation call_method :: fid where "call_method \<equiv> 4"
abbreviation getV_fn :: fid where "getV_fn \<equiv> 5"

fun max_nums :: "jsval list \<Rightarrow> int option" where
  "max_nums [VNum a] = Some a"
| "max_nums (VNum a # xs) = map_option (max a) (max_nums xs)"
| "max_nums xs = None"

definition test_result :: "fid \<Rightarrow> jsval list \<Rightarrow> error + jsval" where
  "test_result f args =
     (if f = sqrt_fn then
        (if args = [VNum 16] then Inr (VNum 4)
         else if args = [VNum 9] then Inr (VNum 3)
         else Inr VUndefined)
      else if f = max_fn then
        (case max_nums args of Some m \<Rightarrow> Inr (VNum m) | None \<Rightarrow> Inr VUndefined)
      else if f = double_fn then
        (case args of VNum x # rest \<Rightarrow> Inr (VNum (x * 2)) | _ \<Rightarrow> Inr VUndefined)
      else if f = getV_fn then
        (case args of
           VObj pr props # rest \<Rightarrow>
             (case map_of props ''v'' of Some v \<Rightarrow> Inr v | None \<Rightarrow> Inr VUndefined)
         | VNum n # rest \<Rightarrow> Inr VUndefined
         | VStr s # rest \<Rightarrow> Inr VUndefined
         | VBool b # rest \<Rightarrow> Inr VUndefined
         | _ \<Rightarrow> Inl TypeError)
      else Inl TypeError)"

definition test_call :: "fid \<Rightarrow> jsval list \<Rightarrow> event list \<Rightarrow> (error + jsval) \<times> event list" where
  "test_call f args w = (test_result f args, w @ [Called f args])"

definition test_construct ::
  "fid \<Rightarrow> jsval list \<Rightarrow> event list \<Rightarrow> (error + jsval) \<times> event list" where
  "test_construct f args w =
     (if f = Box then
        (Inr (VObj (ProtoClass Box) [(''v'', case args of [] \<Rightarrow> VUndefined | v # rest \<Rightarrow> v)]),
         w @ [Constructed f args])
      else (Inl TypeError, w))"

definition test_inherited :: "proto \<Rightarrow> string \<Rightarrow> jsval" where
  "test_inherited p k = (if p = ProtoFunction \<and> k = ''call'' then VFun call_method else VUndefined)"

definition test_realm :: "event list realm" where
  "test_realm =
     \<lparr> isClass = (\<lambda>f. f = Box),
       call_fn = test_call,
       construct_fn = test_construct,
       fun_own = (\<lambda>f. []),
       fun_proto = (\<lambda>f. ProtoFunction),
       inherited = test_inherited,
       toString = (\<lambda>j. ''[object Object]'') \<rparr>"

definition math_context :: jsval where
  "math_context = VObj ProtoObject [(''sqrt'', VFun sqrt_fn), (''max'', VFun max_fn)]"

definition box_context :: jsval where
  "box_context =
     VObj ProtoObject [(''NS'', VObj ProtoObject [(''Box'', VFun Box)]), (''f'', VFun double_fn)]"

definition utils_context :: jsval where
  "utils_context =
     VObj ProtoObject
       [(''Math'', VObj ProtoObject [(''sqrt'', VFun sqrt_fn), (''max'', VFun max_fn)]),
        (''utils'', VObj ProtoObject [(''getV'', VFun getV_fn)])]"

definition empty_context :: jsval where
  "empty_context = VObj ProtoObject []"

section \<open>Auxiliary facts\<close>

lemma join_elem_strs: "map (join_elem R \<circ> JStr) p = p"
  by (induction p) simp_all

lemma walk_append: "walk R v (ks @ ks') = walk R (walk R v ks) ks'"
  by (induction ks arbitrary: v) simp_all

lemma walk_undefined: "walk R VUndefined ks = VUndefined"
  by (induction ks) simp_all

lemma walk_nullish: "nullish v \<Longrightarrow> ks \<noteq> [] \<Longrightarrow> walk R v ks = VUndefined"
  by (cases ks; cases v) (simp_all add: walk_undefined)

lemma mentions_empty: "mentions s []"
  by (cases s) simp_all

lemma mentions_prefix: "mentions (t @ s) t"
  by (cases t) (simp_all add: mentions_empty)

lemma mentions_append: "mentions (a @ t @ b) t"
proof (induction a)
  case Nil
  show ?case using mentions_prefix [of t b] by simp
next
  case (Cons c a)
  then show ?case by simp
qed

lemma mentions_suffix: "mentions (a @ t) t"
  using mentions_append [of a t "[]"] by simp

text \<open>What resolution does once the path is an array of names.\<close>

lemma resolve_function:
  assumes "map_of ps ''_path'' = Some (JArr (map JStr p))"
    and "walk R T (map JStr p) = VFun f"
  shows "executeDehydrated R T (JObj ps) w =
     (case map_of ps ''_args'' of
        None \<Rightarrow> (Inr (VFun f), w)
      | Some a \<Rightarrow>
          if truthy_json a then
            (case hydrate R a T w of
               (Inl e, w') \<Rightarrow> (Inl e, w')
             | (Inr args, w') \<Rightarrow> invoke R f (JArr (map JStr p)) (map_of ps ''_class'') args w')
          else (Inr (VFun f), w))"
  using assms by simp

lemma resolve_no_function:
  assumes "map_of ps ''_path'' = Some (JArr (map JStr p))"
    and "\<not> is_function (walk R T (map JStr p))"
  shows "executeDehydrated R T (JObj ps) w =
     (Inl (Error (''context does not have a function at path: '' @ join_dot p)), w)"
proof -
  have "executeDehydrated R T (JObj ps) w = no_function R (JArr (map JStr p)) w"
    using assms by (cases "walk R T (map JStr p)") simp_all
  then show ?thesis
    by (simp add: no_function_def join_elem_strs)
qed

lemma resolve_call:
  assumes "map_of ps ''_path'' = Some (JArr (map JStr p))"
    and "map_of ps ''_args'' = Some (JArr A)"
    and "walk R T (map JStr p) = VFun f"
  shows "executeDehydrated R T (JObj ps) w =
     (case hydrate_elements R A T [] w of
        (Inl e, w') \<Rightarrow> (Inl e, w')
      | (Inr vs, w') \<Rightarrow> invoke R f (JArr (map JStr p)) (map_of ps ''_class'') (VArr vs) w')"
  using assms by (simp add: resolve_function split: prod.splits sum.splits)

lemma invoke_plain:
  "\<not> truthy_field cls \<Longrightarrow> invoke R f path cls (VArr vs) w = call_fn R f vs w"
  by (simp add: invoke_def)

lemma invoke_class:
  "truthy_field cls \<Longrightarrow> isClass R f \<Longrightarrow> invoke R f path cls (VArr vs) w = construct_fn R f vs w"
  by (simp add: invoke_def)

lemma invoke_no_class:
  "truthy_field cls \<Longrightarrow> \<not> isClass R f \<Longrightarrow>
     invoke R f (JArr (map JStr p)) cls args w =
       (Inl (Error (''context does not have a class at path: '' @ join_dot p)), w)"
  by (simp add: invoke_def join_elem_strs)

lemma set_own_fresh: "k \<notin> fst ` set acc \<Longrightarrow> set_own acc k v = acc @ [(k, v)]"
  by (induction acc) auto

lemma struct_eq_props_keys: "struct_eq_props a b \<Longrightarrow> map fst a = map fst b"
proof (induction a arbitrary: b)
  case Nil
  then show ?case by (cases b) simp_all
next
  case (Cons x a)
  then show ?case by (cases b; cases x) auto
qed

lemma struct_eq_props_snoc:
  "struct_eq_props a b \<Longrightarrow> struct_eq v j \<Longrightarrow> struct_eq_props (a @ [(k, v)]) (b @ [(k, j)])"
proof (induction a arbitrary: b)
  case Nil
  then show ?case by (cases b) simp_all
next
  case (Cons x a)
  then show ?case by (cases b; cases x) auto
qed

lemma struct_eq_list_snoc:
  "struct_eq_list a b \<Longrightarrow> struct_eq v j \<Longrightarrow> struct_eq_list (a @ [v]) (b @ [j])"
proof (induction a arbitrary: b)
  case Nil
  then show ?case by (cases b) simp_all
next
  case (Cons x a)
  then show ?case by (cases b) auto
qed

lemma wf_json_list_iff: "wf_json_list xs = (\<forall>x\<in>set xs. wf_json x)"
  by (induction xs) simp_all

lemma wf_json_props_iff: "wf_json_props ps = (\<forall>x\<in>set ps. wf_json (snd x))"
  by (induction ps) auto

lemma descriptor_free_list_iff: "descriptor_free_list xs = (\<forall>x\<in>set xs. descriptor_free x)"
  by (induction xs) simp_all

lemma descriptor_free_props_iff:
  "descriptor_free_props ps = (\<forall>x\<in>set ps. descriptor_free (snd x))"
  by (induction ps) auto

text \<open>
  The array loop, started with the results \<open>acc\<close> of the elements \<open>done\<close> so far:
  when every remaining element hydrates to a structurally equal value without
  touching the world, so does the whole array.
\<close>

lemma elements_free:
  assumes "\<forall>x\<in>set xs. \<exists>v. hydrate R x T w = (Inr v, w) \<and> struct_eq v x"
    and "struct_eq_list acc done"
  shows "\<exists>vs. hydrate_elements R xs T acc w = (Inr vs, w) \<and> struct_eq_list vs (done @ xs)"
  using assms
proof (induction xs arbitrary: acc "done")
  case Nil
  then show ?case by simp
next
  case (Cons x xs)
  from Cons.prems(1) obtain v where v: "hydrate R x T w = (Inr v, w)" "struct_eq v x"
    by auto
  have "struct_eq_list (acc @ [v]) (done @ [x])"
    using Cons.prems(2) v(2) by (rule struct_eq_list_snoc)
  with Cons.IH [of "acc @ [v]" "done @ [x]"] Cons.prems(1) v(1) show ?case
    by simp
qed

text \<open>The loop over the keys of an object, with the properties \<open>ps1\<close> already copied.\<close>

lemma keys_free:
  assumes "distinct (map fst (ps1 @ ps2))"
    and "\<forall>x\<in>set ps2. \<exists>v. hydrate R (snd x) T w = (Inr v, w) \<and> struct_eq v (snd x)"
    and "struct_eq_props acc ps1"
  shows "\<exists>r. hydrate_keys R (ps1 @ ps2) (map fst ps2) T acc w = (Inr r, w)
           \<and> struct_eq_props r (ps1 @ ps2)"
  using assms
proof (induction ps2 arbitrary: ps1 acc)
  case Nil
  then show ?case by simp
next
  case (Cons x ps2)
  obtain k j where x: "x = (k, j)" by (cases x)
  from Cons.prems(2) x obtain v where v: "hydrate R j T w = (Inr v, w)" "struct_eq v j"
    by auto
  have fresh: "k \<notin> fst ` set ps1"
    using Cons.prems(1) x by auto
  then have "map_of ps1 k = None"
    by (simp add: map_of_eq_None_iff)
  then have look: "map_of (ps1 @ x # ps2) k = Some j"
    using x by (simp add: map_add_def)
  have "map fst acc = map fst ps1"
    using Cons.prems(3) by (rule struct_eq_props_keys)
  then have "fst ` set acc = fst ` set ps1"
    by (metis list.set_map)
  then have own: "set_own acc k v = acc @ [(k, v)]"
    using fresh by (simp add: set_own_fresh)
  have acc': "struct_eq_props (acc @ [(k, v)]) (ps1 @ [(k, j)])"
    using Cons.prems(3) v(2) by (rule struct_eq_props_snoc)
  have "\<exists>r. hydrate_keys R ((ps1 @ [(k, j)]) @ ps2) (map fst ps2) T (acc @ [(k, v)]) w = (Inr r, w)
           \<and> struct_eq_props r ((ps1 @ [(k, j)]) @ ps2)"
    using Cons.prems(1,2) x acc' by (intro Cons.IH) simp_all
  then show ?case
    using look v(1) own x by simp
qed

lemma set_own_keys: "fst ` set (set_own acc k v) = insert k (fst ` set acc)"
proof (induction acc)
  case Nil
  show ?case by simp
next
  case (Cons a acc)
  obtain k' v' where a: "a = (k', v')" by (cases a)
  show ?case
  proof (cases "k' = k")
    case True
    with a show ?thesis by simp
  next
    case False
    with a Cons.IH show ?thesis by (simp add: insert_commute)
  qed
qed

text \<open>The object that the loop over the keys builds has the keys it was given.\<close>

lemma hydrate_keys_keys:
  "hydrate_keys R ps ks T acc w = (Inr r, w') \<Longrightarrow> fst ` set r = fst ` set acc \<union> set ks"
proof (induction ks arbitrary: acc w)
  case Nil
  then show ?case by simp
next
  case (Cons k ks)
  show ?case
  proof (cases "map_of ps k")
    case None
    with Cons.prems have "hydrate_keys R ps ks T (set_own acc k VUndefined) w = (Inr r, w')"
      by simp
    from Cons.IH [OF this] show ?thesis
      by (simp add: set_own_keys)
  next
    case (Some j)
    with Cons.prems obtain v w1 where "hydrate R j T w = (Inr v, w1)"
      and "hydrate_keys R ps ks T (set_own acc k v) w1 = (Inr r, w')"
      by (auto split: prod.splits sum.splits)
    from Cons.IH [OF this(2)] show ?thesis
      by (simp add: set_own_keys)
  qed
qed

text \<open>
  The code does what the relation says: whenever the relation gives a value and a
  world, the functions of the code return them. For the loop over the keys the
  statement is about the properties \<open>qs\<close> still to be copied, after the properties
  \<open>pre\<close> whose hydrated values are in \<open>acc\<close>.
\<close>

lemma hydrates_sound:
  "(hydrates R T j w v w' \<longrightarrow> hydrate R j T w = (Inr v, w'))
   \<and> (hydrates_list R T xs w1 vs w1' \<longrightarrow>
        (\<forall>acc. hydrate_elements R xs T acc w1 = (Inr (acc @ vs), w1')))
   \<and> (hydrates_props R T qs w2 rs w2' \<longrightarrow>
        (\<forall>pre acc. distinct (map fst (pre @ qs)) \<longrightarrow> map fst acc = map fst pre \<longrightarrow>
           hydrate_keys R (pre @ qs) (map fst qs) T acc w2 = (Inr (acc @ rs), w2')))
   \<and> (resolves R T ps w3 u w3' \<longrightarrow> executeDehydrated R T (JObj ps) w3 = (Inr u, w3'))"
proof (induction rule: hydrates_hydrates_list_hydrates_props_resolves.induct)
  case (h_object ps w rs w')
  from h_object.IH h_object.hyps(2)
  have "hydrate_keys R ([] @ ps) (map fst ps) T [] w = (Inr ([] @ rs), w')"
    by (metis append_Nil list.simps(8))
  with h_object.hyps(1) show ?case by simp
next
  case (p_cons j w v w1 ps rs w2 k)
  show ?case
  proof (intro allI impI)
    fix pre :: "(string \<times> json) list" and acc :: "(string \<times> jsval) list"
    assume d: "distinct (map fst (pre @ (k, j) # ps))" and a: "map fst acc = map fst pre"
    have fresh: "k \<notin> fst ` set pre"
      using d by auto
    then have "map_of pre k = None"
      by (simp add: map_of_eq_None_iff)
    then have look: "map_of (pre @ (k, j) # ps) k = Some j"
      by (simp add: map_add_def)
    have "fst ` set acc = fst ` set pre"
      using a by (metis list.set_map)
    then have own: "set_own acc k v = acc @ [(k, v)]"
      using fresh by (simp add: set_own_fresh)
    have "distinct (map fst ((pre @ [(k, j)]) @ ps))"
      and "map fst (acc @ [(k, v)]) = map fst (pre @ [(k, j)])"
      using d a by simp_all
    with p_cons.IH
    have "hydrate_keys R ((pre @ [(k, j)]) @ ps) (map fst ps) T (acc @ [(k, v)]) w1
        = (Inr ((acc @ [(k, v)]) @ rs), w2)"
      by blast
    then show "hydrate_keys R (pre @ (k, j) # ps) (map fst ((k, j) # ps)) T acc w
        = (Inr (acc @ (k, v) # rs), w2)"
      using look own p_cons.IH by simp
  qed
next
  case (r_call ps ks f A w vs w1 v w2)
  then show ?case by (simp add: invoke_def)
next
  case (r_construct ps ks f A w vs w1 v w2)
  then show ?case by (simp add: invoke_def)
qed simp_all

section \<open>Resolving a call\<close>




section \<open>Payloads without descriptors\<close>

text \<open>
  C2. A payload in which every object has each key once and in which no object is
  taken for a descriptor hydrates, against any context and in any realm, without
  failing and without touching the world, to a value structurally equal to it:
  arrays keep their length and the order of their elements, objects keep their keys,
  each with the hydrated value, and primitives, null among them, are returned as they
  are.
\<close>

theorem hydrate_round_trip:
  "wf_json j \<Longrightarrow> descriptor_free j \<Longrightarrow> \<exists>v. hydrate R j T w = (Inr v, w) \<and> struct_eq v j"
proof (induction j)
  case (JArr xs)
  have "\<forall>x\<in>set xs. \<exists>v. hydrate R x T w = (Inr v, w) \<and> struct_eq v x"
    using JArr by (simp add: wf_json_list_iff descriptor_free_list_iff)
  then have "\<exists>vs. hydrate_elements R xs T [] w = (Inr vs, w) \<and> struct_eq_list vs ([] @ xs)"
    by (rule elements_free) simp
  then show ?case by auto
next
  case (JObj ps)
  have "\<forall>x\<in>set ps. \<exists>v. hydrate R (snd x) T w = (Inr v, w) \<and> struct_eq v (snd x)"
  proof
    fix x assume "x \<in> set ps"
    moreover have "snd x \<in> Basic_BNFs.snds x" by (cases x) simp
    ultimately show "\<exists>v. hydrate R (snd x) T w = (Inr v, w) \<and> struct_eq v (snd x)"
      using JObj by (auto simp: wf_json_props_iff descriptor_free_props_iff)
  qed
  moreover have "distinct (map fst ([] @ ps))"
    using JObj.prems(1) by simp
  ultimately have "\<exists>r. hydrate_keys R ([] @ ps) (map fst ps) T [] w = (Inr r, w)
      \<and> struct_eq_props r ([] @ ps)"
    by (intro keys_free) simp_all
  then show ?case
    using JObj.prems(2) by auto
qed simp_all

theorem hydrate_round_trip_witness:
  "wf_json (JObj [(''y'', JArr [JNum 10, JNull, JObj [(''nested'', JObj [(''k'', JStr ''v'')])]]),
                  (''bool'', JBool True)])
   \<and> descriptor_free (JObj [(''y'', JArr [JNum 10, JNull, JObj [(''nested'', JObj [(''k'', JStr ''v'')])]]),
                  (''bool'', JBool True)])
   \<and> (\<exists>v. hydrate test_realm
             (JObj [(''y'', JArr [JNum 10, JNull, JObj [(''nested'', JObj [(''k'', JStr ''v'')])]]),
                    (''bool'', JBool True)]) math_context []
           = (Inr v, [])
         \<and> struct_eq v
             (JObj [(''y'', JArr [JNum 10, JNull, JObj [(''nested'', JObj [(''k'', JStr ''v'')])]]),
                    (''bool'', JBool True)]))"
  using hydrate_round_trip [of
      "JObj [(''y'', JArr [JNum 10, JNull, JObj [(''nested'', JObj [(''k'', JStr ''v'')])]]),
             (''bool'', JBool True)]"
      test_realm math_context "[]"]
  by simp

section \<open>Recognising a descriptor\<close>

text \<open>
  C5, as the code has it. Among the objects of a payload, hydration takes for a
  descriptor exactly those whose \<open>_path\<close> field holds a truthy value, which every
  array is, the empty one too; such an object is handed to the resolver and the
  outcome of the resolution is the outcome of its hydration, whatever its other
  fields are. An object whose \<open>_path\<close> is absent or falsy (null, false, 0 or the empty
  string) is hydrated as a plain object: each key with its hydrated value, and when
  that succeeds the result is a new object without prototype that has the keys of
  the payload object. No other field takes part in the decision.
\<close>

theorem descriptor_recognition:
  "(truthy_field (map_of ps ''_path'') \<longrightarrow>
      hydrate R (JObj ps) T w = executeDehydrated R T (JObj ps) w)
   \<and> (\<not> truthy_field (map_of ps ''_path'') \<longrightarrow>
        hydrate R (JObj ps) T w =
          (case hydrate_keys R ps (map fst ps) T [] w of
             (Inl e, w') \<Rightarrow> (Inl e, w')
           | (Inr result, w') \<Rightarrow> (Inr (VObj ProtoNull result), w'))
        \<and> (\<forall>v w'. hydrate R (JObj ps) T w = (Inr v, w') \<longrightarrow>
              (\<exists>result. v = VObj ProtoNull result \<and> fst ` set result = fst ` set ps)))"
proof (intro conjI impI allI)
  assume "truthy_field (map_of ps ''_path'')"
  then show "hydrate R (JObj ps) T w = executeDehydrated R T (JObj ps) w"
    by simp
next
  assume "\<not> truthy_field (map_of ps ''_path'')"
  then show "hydrate R (JObj ps) T w =
      (case hydrate_keys R ps (map fst ps) T [] w of
         (Inl e, w') \<Rightarrow> (Inl e, w')
       | (Inr result, w') \<Rightarrow> (Inr (VObj ProtoNull result), w'))"
    by simp
next
  fix v w'
  assume "\<not> truthy_field (map_of ps ''_path'')" and "hydrate R (JObj ps) T w = (Inr v, w')"
  then obtain result where "hydrate_keys R ps (map fst ps) T [] w = (Inr result, w')"
    and "v = VObj ProtoNull result"
    by (auto split: prod.splits sum.splits)
  then show "\<exists>result. v = VObj ProtoNull result \<and> fst ` set result = fst ` set ps"
    using hydrate_keys_keys [of R ps "map fst ps" T "[]" w result w'] by auto
qed

theorem descriptor_recognition_witness:
  "truthy_field (map_of [(''_path'', JArr [JStr ''sqrt'']), (''_args'', JArr [JNum 9])] ''_path'')
   \<and> hydrate test_realm (JObj [(''_path'', JArr [JStr ''sqrt'']), (''_args'', JArr [JNum 9])])
        math_context []
      = executeDehydrated test_realm math_context
          (JObj [(''_path'', JArr [JStr ''sqrt'']), (''_args'', JArr [JNum 9])]) []
   \<and> \<not> truthy_field (map_of [(''_path'', JStr []), (''alpha'', JNum 1)] ''_path'')
   \<and> hydrate test_realm (JObj [(''_path'', JStr []), (''alpha'', JNum 1)]) math_context []
      = (Inr (VObj ProtoNull [(''_path'', VStr []), (''alpha'', VNum 1)]), [])"
  using descriptor_recognition [of "[(''_path'', JArr [JStr ''sqrt'']), (''_args'', JArr [JNum 9])]"
      test_realm math_context "[]"]
    descriptor_recognition [of "[(''_path'', JStr []), (''alpha'', JNum 1)]"
      test_realm math_context "[]"]
  by simp

text \<open>
  The object \<open>{_path: null, _args: []}\<close> possesses a \<open>_path\<close> field, and hydration
  copies it as a plain object; the resolver, had it been handed the object, would
  have failed on it.
\<close>

theorem falsy_path_counterexample:
  "map_of [(''_path'', JNull), (''_args'', JArr [])] ''_path'' = Some JNull
   \<and> hydrate test_realm (JObj [(''_path'', JNull), (''_args'', JArr [])]) math_context []
      = (Inr (VObj ProtoNull [(''_path'', VNull), (''_args'', VArr [])]), [])
   \<and> executeDehydrated test_realm math_context (JObj [(''_path'', JNull), (''_args'', JArr [])]) []
      = (Inl TypeError, [])"
  by simp

section \<open>Paths that do not resolve\<close>

text \<open>
  C3. Let the path of a descriptor be the array of names \<open>p\<close>. When walking a
  proper prefix of \<open>p\<close> through the tree arrives at undefined or null, or when the
  whole of \<open>p\<close> arrives at something that is not a function, resolution fails, in the
  world as it was, with the error whose message is "context does not have a function
  at path: " followed by the names of \<open>p\<close> joined with dots. The descriptor with the
  path Missing, fn fails against the empty tree with a message that mentions
  Missing.fn.
\<close>

theorem unresolved_path_error:
  assumes "map_of ps ''_path'' = Some (JArr (map JStr p))"
    and "(\<exists>q r. p = q @ r \<and> r \<noteq> [] \<and> nullish (walk R T (map JStr q)))
         \<or> \<not> is_function (walk R T (map JStr p))"
  shows "executeDehydrated R T (JObj ps) w =
           (Inl (Error (''context does not have a function at path: '' @ join_dot p)), w)
         \<and> mentions (''context does not have a function at path: '' @ join_dot p) (join_dot p)"
proof -
  have "\<not> is_function (walk R T (map JStr p))"
    using assms(2)
  proof
    assume "\<exists>q r. p = q @ r \<and> r \<noteq> [] \<and> nullish (walk R T (map JStr q))"
    then obtain q r where "p = q @ r" "r \<noteq> []" "nullish (walk R T (map JStr q))"
      by blast
    then have "walk R T (map JStr p) = VUndefined"
      by (simp add: walk_append walk_nullish)
    then show ?thesis by simp
  qed
  with assms(1) have "executeDehydrated R T (JObj ps) w =
      (Inl (Error (''context does not have a function at path: '' @ join_dot p)), w)"
    by (rule resolve_no_function)
  moreover have
    "mentions (''context does not have a function at path: '' @ join_dot p) (join_dot p)"
    by (rule mentions_suffix)
  ultimately show ?thesis
    by (rule conjI)
qed

theorem unresolved_path_error_witness:
  "nullish (walk test_realm empty_context (map JStr [''Missing'']))
   \<and> executeDehydrated test_realm empty_context
        (JObj [(''_path'', JArr (map JStr [''Missing'', ''fn'']))]) []
      = (Inl (Error ''context does not have a function at path: Missing.fn''), [])
   \<and> mentions ''context does not have a function at path: Missing.fn'' ''Missing.fn''"
proof -
  have n: "nullish (walk test_realm empty_context (map JStr [''Missing'']))"
    by (simp add: test_realm_def empty_context_def lookup_proto_def test_inherited_def)
  then have "\<exists>q r. [''Missing'', ''fn''] = q @ r \<and> r \<noteq> []
      \<and> nullish (walk test_realm empty_context (map JStr q))"
    by (intro exI [of _ "[''Missing'']"] exI [of _ "[''fn'']"]) simp
  then show ?thesis
    using n unresolved_path_error [of "[(''_path'', JArr (map JStr [''Missing'', ''fn'']))]"
        "[''Missing'', ''fn'']" test_realm empty_context "[]"]
    by simp
qed

section \<open>References\<close>



text \<open>
  C9. The same holds when the descriptor carries \<open>_class: true\<close>: without \<open>_args\<close>
  the flag is not looked at, resolution does not fail, and the function object at the
  path is returned.
\<close>

theorem reference_ignores_class_flag:
  assumes "map_of ps ''_path'' = Some (JArr (map JStr p))"
    and "map_of ps ''_args'' = None"
    and "map_of ps ''_class'' = Some (JBool True)"
    and "walk R T (map JStr p) = VFun f"
  shows "executeDehydrated R T (JObj ps) w = (Inr (VFun f), w)"
  using assms(1,2,4) by (simp add: resolve_function)

theorem reference_ignores_class_flag_witness:
  "walk test_realm box_context (map JStr [''NS'', ''Box'']) = VFun Box
   \<and> executeDehydrated test_realm box_context
        (JObj [(''_path'', JArr (map JStr [''NS'', ''Box''])), (''_class'', JBool True)]) []
      = (Inr (VFun Box), [])"
  using reference_ignores_class_flag [of
      "[(''_path'', JArr (map JStr [''NS'', ''Box''])), (''_class'', JBool True)]"
      "[''NS'', ''Box'']" test_realm box_context Box "[]"]
  by (simp add: box_context_def)

section \<open>Classes\<close>

text \<open>
  C4, as the code has it. Let the path \<open>p\<close> lead to a function of which \<open>isClass\<close>
  holds, and let the descriptor have the argument list \<open>A\<close>. The arguments are
  hydrated first. Without a truthy \<open>_class\<close> the resolver then calls the class like
  any function and the outcome of that call is the outcome of the resolution: the
  resolver raises no error of its own, and the error that asks for \<open>new\<close> is raised
  by the capture function only. With a truthy \<open>_class\<close> the class is constructed with
  the hydrated arguments and the outcome of the construction is returned.
\<close>

theorem class_target_resolution:
  assumes "map_of ps ''_path'' = Some (JArr (map JStr p))"
    and "map_of ps ''_args'' = Some (JArr A)"
    and "walk R T (map JStr p) = VFun f"
    and "isClass R f"
  shows "executeDehydrated R T (JObj ps) w =
     (case hydrate_elements R A T [] w of
        (Inl e, w') \<Rightarrow> (Inl e, w')
      | (Inr vs, w') \<Rightarrow>
          if truthy_field (map_of ps ''_class'') then construct_fn R f vs w'
          else call_fn R f vs w')"
  unfolding resolve_call [OF assms(1,2,3)]
  using assms(4) by (simp add: invoke_plain invoke_class split: prod.splits sum.splits)

theorem class_target_resolution_witness:
  "walk test_realm box_context (map JStr [''NS'', ''Box'']) = VFun Box
   \<and> isClass test_realm Box
   \<and> executeDehydrated test_realm box_context
        (JObj [(''_path'', JArr (map JStr [''NS'', ''Box''])), (''_args'', JArr [JNum 123]),
               (''_class'', JBool True)]) []
      = (Inr (VObj (ProtoClass Box) [(''v'', VNum 123)]), [Constructed Box [VNum 123]])"
  using class_target_resolution [of
      "[(''_path'', JArr (map JStr [''NS'', ''Box''])), (''_args'', JArr [JNum 123]),
        (''_class'', JBool True)]"
      "[''NS'', ''Box'']" "[JNum 123]" test_realm box_context Box "[]"]
  by (simp add: test_realm_def box_context_def test_construct_def)

text \<open>
  Resolving \<open>{_path: ["NS", "Box"], _args: [123]}\<close> against a context with the class
  \<open>Box\<close> calls \<open>Box\<close> without \<open>new\<close>; what fails is that call, with the engine's
  TypeError, and not the resolver with the error of the capture function.
\<close>

theorem class_without_flag_counterexample:
  "walk test_realm box_context (map JStr [''NS'', ''Box'']) = VFun Box
   \<and> isClass test_realm Box
   \<and> executeDehydrated test_realm box_context
        (JObj [(''_path'', JArr (map JStr [''NS'', ''Box''])), (''_args'', JArr [JNum 123])]) []
      = (Inl TypeError, [Called Box [VNum 123]])
   \<and> fst (executeDehydrated test_realm box_context
        (JObj [(''_path'', JArr (map JStr [''NS'', ''Box''])), (''_args'', JArr [JNum 123])]) [])
      \<noteq> Inl (Error new_required_message)"
  by (simp add: test_realm_def box_context_def invoke_def test_call_def test_result_def)

text \<open>
  C7, as the code has it. Let the descriptor carry \<open>_class: true\<close> and the argument
  list \<open>A\<close>, and let its path \<open>p\<close> lead to a function. The arguments are hydrated
  first, and when that fails the failure is the outcome. Otherwise, when \<open>isClass\<close>
  does not hold of the function, resolution fails in the world the hydration left,
  with the error whose message is "context does not have a class at path: " followed
  by the names of \<open>p\<close> joined with dots; and when it holds, the function is constructed
  with the hydrated arguments and the outcome of the construction is returned.
\<close>

theorem constructor_flag_resolution:
  assumes "map_of ps ''_path'' = Some (JArr (map JStr p))"
    and "map_of ps ''_args'' = Some (JArr A)"
    and "map_of ps ''_class'' = Some (JBool True)"
    and "walk R T (map JStr p) = VFun f"
  shows "executeDehydrated R T (JObj ps) w =
     (case hydrate_elements R A T [] w of
        (Inl e, w') \<Rightarrow> (Inl e, w')
      | (Inr vs, w') \<Rightarrow>
          if isClass R f then construct_fn R f vs w'
          else (Inl (Error (''context does not have a class at path: '' @ join_dot p)), w'))"
  unfolding resolve_call [OF assms(1,2,4)] assms(3)
  by (simp add: invoke_no_class invoke_class split: prod.splits sum.splits)

theorem constructor_flag_resolution_witness:
  "walk test_realm box_context (map JStr [''f'']) = VFun double_fn
   \<and> \<not> isClass test_realm double_fn
   \<and> executeDehydrated test_realm box_context
        (JObj [(''_path'', JArr (map JStr [''f''])), (''_args'', JArr [JNum 2]),
               (''_class'', JBool True)]) []
      = (Inl (Error ''context does not have a class at path: f''), [])"
  using constructor_flag_resolution [of
      "[(''_path'', JArr (map JStr [''f''])), (''_args'', JArr [JNum 2]), (''_class'', JBool True)]"
      "[''f'']" "[JNum 2]" test_realm box_context double_fn "[]"]
  by (simp add: test_realm_def box_context_def)

text \<open>
  The plain function \<open>f\<close> with \<open>_class: true\<close> and an argument that is a descriptor
  of an unknown path: resolution fails on the argument, with the error of the unknown
  path, before the class is asked for.
\<close>

theorem failing_argument_counterexample:
  "walk test_realm box_context (map JStr [''f'']) = VFun double_fn
   \<and> \<not> isClass test_realm double_fn
   \<and> executeDehydrated test_realm box_context
        (JObj [(''_path'', JArr (map JStr [''f''])),
               (''_args'', JArr [JObj [(''_path'', JArr (map JStr [''missing'']))]]),
               (''_class'', JBool True)]) []
      = (Inl (Error ''context does not have a function at path: missing''), [])
   \<and> fst (executeDehydrated test_realm box_context
        (JObj [(''_path'', JArr (map JStr [''f''])),
               (''_args'', JArr [JObj [(''_path'', JArr (map JStr [''missing'']))]]),
               (''_class'', JBool True)]) [])
      \<noteq> Inl (Error ''context does not have a class at path: f'')"
  by (simp add: test_realm_def box_context_def lookup_proto_def test_inherited_def no_function_def)

section \<open>Inherited properties\<close>

text \<open>
  C10. The walk reads properties as the language does, so a step can be answered by
  a prototype. Let the tree be an object with a function \<open>f\<close> under some name, and let
  \<open>call\<close> be no own property of \<open>f\<close> but inherited by it, as a function \<open>c\<close>. Then the
  descriptor with the path name, call and the argument list \<open>A\<close> does not fail as
  unresolved: the arguments are hydrated and \<open>c\<close> is called with them. In the test
  context this happens to \<open>f.call\<close>; the call itself, made on no function, ends in the
  engine's TypeError.
\<close>

theorem inherited_method_resolution:
  assumes "map_of ps ''_path'' = Some (JArr (map JStr [name, ''call'']))"
    and "map_of ps ''_args'' = Some (JArr A)"
    and "\<not> truthy_field (map_of ps ''_class'')"
    and "T = VObj pr props"
    and "map_of props name = Some (VFun f)"
    and "map_of (fun_own R f) ''call'' = None"
    and "lookup_proto R (fun_proto R f) ''call'' = VFun c"
  shows "executeDehydrated R T (JObj ps) w =
     (case hydrate_elements R A T [] w of
        (Inl e, w') \<Rightarrow> (Inl e, w')
      | (Inr vs, w') \<Rightarrow> call_fn R c vs w')"
proof -
  have "walk R T (map JStr [name, ''call'']) = VFun c"
    using assms(4-7) by simp
  from resolve_call [OF assms(1,2) this] show ?thesis
    by (simp add: invoke_plain [OF assms(3)] split: prod.splits sum.splits)
qed

theorem inherited_method_resolution_witness:
  "map_of (fun_own test_realm double_fn) ''call'' = None
   \<and> lookup_proto test_realm (fun_proto test_realm double_fn) ''call'' = VFun call_method
   \<and> executeDehydrated test_realm
        (VObj ProtoObject [(''NS'', VObj ProtoObject [(''Box'', VFun Box)]), (''f'', VFun double_fn)])
        (JObj [(''_path'', JArr (map JStr [''f'', ''call''])), (''_args'', JArr [JNum 1])]) []
      = (Inl TypeError, [Called call_method [VNum 1]])"
  using inherited_method_resolution [of
      "[(''_path'', JArr (map JStr [''f'', ''call''])), (''_args'', JArr [JNum 1])]"
      "''f''" "[JNum 1]"
      "VObj ProtoObject [(''NS'', VObj ProtoObject [(''Box'', VFun Box)]), (''f'', VFun double_fn)]"
      ProtoObject "[(''NS'', VObj ProtoObject [(''Box'', VFun Box)]), (''f'', VFun double_fn)]"
      double_fn test_realm call_method "[]"]
  by (simp add: test_realm_def lookup_proto_def test_inherited_def test_call_def test_result_def)

section \<open>Error messages\<close>

text \<open>
  C8, as the code has it. Three of the four errors name the path, joined with dots,
  at the end of their message: the error of the proxy for a property that is neither
  a function nor an object (the only error the proxy's \<open>get\<close> raises), the error of
  the resolver for a path that does not lead to a function, and its error for a
  constructor flag on a function that is not a class. The fourth, raised by the
  capture function of a class called without \<open>new\<close>, has one fixed message for every
  path.
\<close>

theorem error_messages:
  "(proxy_get R target path key = Inl e \<longrightarrow>
      e = Error (''context does not have function for path: '' @ join_dot (path @ [key]))
      \<and> mentions (''context does not have function for path: '' @ join_dot (path @ [key]))
           (join_dot (path @ [key])))
   \<and> (map_of ps ''_path'' = Some (JArr (map JStr p)) \<and> \<not> is_function (walk R T (map JStr p)) \<longrightarrow>
        executeDehydrated R T (JObj ps) w =
          (Inl (Error (''context does not have a function at path: '' @ join_dot p)), w)
        \<and> mentions (''context does not have a function at path: '' @ join_dot p) (join_dot p))
   \<and> (map_of qs ''_path'' = Some (JArr (map JStr q)) \<and> map_of qs ''_args'' = Some (JArr A)
        \<and> map_of qs ''_class'' = Some (JBool True) \<and> walk R T (map JStr q) = VFun f
        \<and> \<not> isClass R f \<and> hydrate_elements R A T [] w = (Inr vs, w') \<longrightarrow>
        executeDehydrated R T (JObj qs) w =
          (Inl (Error (''context does not have a class at path: '' @ join_dot q)), w')
        \<and> mentions (''context does not have a class at path: '' @ join_dot q) (join_dot q))
   \<and> capturer_call path True args = Inl (Error new_required_message)"
proof (intro conjI impI)
  assume "proxy_get R target path key = Inl e"
  then show "e = Error (''context does not have function for path: '' @ join_dot (path @ [key]))"
    by (cases "get_prop R target key")
      (simp_all add: proxy_get_def createCallCapturer_def split: if_splits)
next
  show "mentions (''context does not have function for path: '' @ join_dot (path @ [key]))
           (join_dot (path @ [key]))"
    by (rule mentions_suffix)
next
  assume "map_of ps ''_path'' = Some (JArr (map JStr p)) \<and> \<not> is_function (walk R T (map JStr p))"
  then have "map_of ps ''_path'' = Some (JArr (map JStr p))"
    and "\<not> is_function (walk R T (map JStr p))"
    by simp_all
  then show "executeDehydrated R T (JObj ps) w =
      (Inl (Error (''context does not have a function at path: '' @ join_dot p)), w)"
    by (rule resolve_no_function)
next
  show "mentions (''context does not have a function at path: '' @ join_dot p) (join_dot p)"
    by (rule mentions_suffix)
next
  assume a: "map_of qs ''_path'' = Some (JArr (map JStr q)) \<and> map_of qs ''_args'' = Some (JArr A)
        \<and> map_of qs ''_class'' = Some (JBool True) \<and> walk R T (map JStr q) = VFun f
        \<and> \<not> isClass R f \<and> hydrate_elements R A T [] w = (Inr vs, w')"
  then have "executeDehydrated R T (JObj qs) w =
      invoke R f (JArr (map JStr q)) (Some (JBool True)) (VArr vs) w'"
    using resolve_call [of qs q A R T f w] by simp
  with a show "executeDehydrated R T (JObj qs) w =
      (Inl (Error (''context does not have a class at path: '' @ join_dot q)), w')"
    by (simp add: invoke_no_class)
next
  show "mentions (''context does not have a class at path: '' @ join_dot q) (join_dot q)"
    by (rule mentions_suffix)
next
  show "capturer_call path True args = Inl (Error new_required_message)"
    by (simp add: capturer_call_def)
qed

theorem error_messages_witness:
  "proxy_get test_realm (VObj ProtoObject [(''value'', VNum 42)]) [] ''value''
      = Inl (Error ''context does not have function for path: value'')
   \<and> executeDehydrated test_realm box_context (JObj [(''_path'', JArr (map JStr [''NS'', ''PI'']))]) []
      = (Inl (Error ''context does not have a function at path: NS.PI''), [])
   \<and> mentions ''context does not have a function at path: NS.PI'' ''NS.PI''
   \<and> executeDehydrated test_realm box_context
        (JObj [(''_path'', JArr (map JStr [''f''])), (''_args'', JArr [JNum 2]),
               (''_class'', JBool True)]) []
      = (Inl (Error ''context does not have a class at path: f''), [])"
  using error_messages [of test_realm "VObj ProtoObject [(''value'', VNum 42)]" "[]" "''value''"
      "Error ''context does not have function for path: value''"
      "[(''_path'', JArr (map JStr [''NS'', ''PI'']))]" "[''NS'', ''PI'']" box_context "[]"
      "[(''_path'', JArr (map JStr [''f''])), (''_args'', JArr [JNum 2]), (''_class'', JBool True)]"
      "[''f'']" "[JNum 2]" double_fn "[VNum 2]" "[]" "[]"]
  by (simp add: proxy_get_def test_realm_def box_context_def lookup_proto_def test_inherited_def)

text \<open>
  The capture function for the class at NS.Box, called without \<open>new\<close>: its message
  does not mention NS.Box.
\<close>

theorem new_required_counterexample:
  "proxy_get test_realm (VObj ProtoObject [(''Box'', VFun Box)]) [''NS''] ''Box''
      = Inr (CaptureFn [''NS'', ''Box''] True)
   \<and> capturer_call [''NS'', ''Box''] True [JStr ''value''] = Inl (Error new_required_message)
   \<and> \<not> mentions new_required_message (join_dot [''NS'', ''Box''])"
  by (simp add: proxy_get_def test_realm_def capturer_call_def new_required_message_def)

end
